theory Spec2Isabelle
  imports Main
begin

section \<open>Python values handled by the service\<close>

text \<open>
  The service (\<^verbatim>\<open>src/service/service.py\<close>) is dynamically typed: stream events, node
  updates and message lists arrive as \<^verbatim>\<open>Any\<close>. The type \<open>pyval\<close> holds the shapes the
  code distinguishes. Dictionary keys are strings (node names, field names). A message
  object carries its class, its content and its name. \<open>PObj c\<close> is an object of class \<open>c\<close>
  with no length, no attributes of interest and no JSON form; \<open>PCyclic\<close> is a list that
  contains itself, the one value on which \<^verbatim>\<open>json.dumps\<close> raises \<^verbatim>\<open>ValueError\<close>.
\<close>

datatype msg_class = HumanMessage | AIMessage | AIMessageChunk | ToolMessage | SystemMessage

datatype pyval =
    PNone
  | PBool bool
  | PInt int
  | PStr string
  | PList "pyval list"
  | PTuple "pyval list"
  | PDict "(string \<times> pyval) list"
  | PMsg msg_class pyval "string option"
  | PInterrupt pyval
  | PObj string
  | PCyclic

datatype exn =
    KeyError
  | IndexError
  | TypeError
  | ValueError
  | AttributeError
  | ValidationError
  | HTTPException nat string
  | EngineError string

fun and_then :: "exn + 'a \<Rightarrow> ('a \<Rightarrow> exn + 'b) \<Rightarrow> exn + 'b" where
  "and_then (Inl e) f = Inl e"
| "and_then (Inr x) f = f x"

text \<open>Truth value of an object, as \<^verbatim>\<open>if x:\<close> and \<^verbatim>\<open>x or y\<close> take it.\<close>

fun truthy :: "pyval \<Rightarrow> bool" where
  "truthy PNone = False"
| "truthy (PBool b) = b"
| "truthy (PInt i) = (i \<noteq> 0)"
| "truthy (PStr s) = (s \<noteq> [])"
| "truthy (PList xs) = (xs \<noteq> [])"
| "truthy (PTuple xs) = (xs \<noteq> [])"
| "truthy (PDict kvs) = (kvs \<noteq> [])"
| "truthy (PMsg c v n) = True"
| "truthy (PInterrupt v) = True"
| "truthy (PObj c) = True"
| "truthy PCyclic = True"

text \<open>\<^verbatim>\<open>len(x)\<close>: a \<^verbatim>\<open>TypeError\<close> on objects without a length.\<close>

fun py_len :: "pyval \<Rightarrow> exn + nat" where
  "py_len (PStr s) = Inr (length s)"
| "py_len (PList xs) = Inr (length xs)"
| "py_len (PTuple xs) = Inr (length xs)"
| "py_len (PDict kvs) = Inr (length kvs)"
| "py_len PCyclic = Inr 1"
| "py_len _ = Inl TypeError"

text \<open>Iteration (\<^verbatim>\<open>for x in v\<close>, \<^verbatim>\<open>list.extend(v)\<close>): a dictionary yields its keys,
  a string its characters.\<close>

fun py_iter :: "pyval \<Rightarrow> exn + pyval list" where
  "py_iter (PList xs) = Inr xs"
| "py_iter (PTuple xs) = Inr xs"
| "py_iter (PStr s) = Inr (map (\<lambda>c. PStr [c]) s)"
| "py_iter (PDict kvs) = Inr (map (\<lambda>kv. PStr (fst kv)) kvs)"
| "py_iter PCyclic = Inr [PCyclic]"
| "py_iter _ = Inl TypeError"

text \<open>\<^verbatim>\<open>a, b = v\<close>: \<^verbatim>\<open>TypeError\<close> when \<open>v\<close> is not iterable, \<^verbatim>\<open>ValueError\<close> when it does
  not have exactly two items.\<close>

definition unpack2 :: "pyval \<Rightarrow> exn + (pyval \<times> pyval)" where
  "unpack2 v = and_then (py_iter v)
     (\<lambda>xs. case xs of [a, b] \<Rightarrow> Inr (a, b) | _ \<Rightarrow> Inl ValueError)"

text \<open>\<^verbatim>\<open>v[0]\<close> and \<^verbatim>\<open>v[-1]\<close>.\<close>

fun index_first :: "pyval \<Rightarrow> exn + pyval" where
  "index_first (PList xs) = (case xs of [] \<Rightarrow> Inl IndexError | x # _ \<Rightarrow> Inr x)"
| "index_first (PTuple xs) = (case xs of [] \<Rightarrow> Inl IndexError | x # _ \<Rightarrow> Inr x)"
| "index_first (PStr s) = (case s of [] \<Rightarrow> Inl IndexError | c # _ \<Rightarrow> Inr (PStr [c]))"
| "index_first (PDict kvs) = Inl KeyError"
| "index_first PCyclic = Inr PCyclic"
| "index_first _ = Inl TypeError"

fun index_last :: "pyval \<Rightarrow> exn + pyval" where
  "index_last (PList xs) = (if xs = [] then Inl IndexError else Inr (last xs))"
| "index_last (PTuple xs) = (if xs = [] then Inl IndexError else Inr (last xs))"
| "index_last (PStr s) = (if s = [] then Inl IndexError else Inr (PStr [last s]))"
| "index_last (PDict kvs) = Inl KeyError"
| "index_last PCyclic = Inr PCyclic"
| "index_last _ = Inl TypeError"

text \<open>\<^verbatim>\<open>v[k]\<close> with a string key \<open>k\<close>.\<close>

fun subscript :: "pyval \<Rightarrow> string \<Rightarrow> exn + pyval" where
  "subscript (PDict kvs) k = (case map_of kvs k of None \<Rightarrow> Inl KeyError | Some v \<Rightarrow> Inr v)"
| "subscript _ k = Inl TypeError"

text \<open>\<^verbatim>\<open>v.get(k, default)\<close>: only dictionaries have the method.\<close>

fun dict_get :: "pyval \<Rightarrow> string \<Rightarrow> pyval \<Rightarrow> exn + pyval" where
  "dict_get (PDict kvs) k d = (case map_of kvs k of None \<Rightarrow> Inr d | Some v \<Rightarrow> Inr v)"
| "dict_get _ k d = Inl AttributeError"

text \<open>\<^verbatim>\<open>v.items()\<close>.\<close>

fun dict_items :: "pyval \<Rightarrow> exn + (string \<times> pyval) list" where
  "dict_items (PDict kvs) = Inr kvs"
| "dict_items _ = Inl AttributeError"

text \<open>\<^verbatim>\<open>d[k] = v\<close> on a dictionary kept in insertion order.\<close>

fun dict_set :: "('k \<times> 'v) list \<Rightarrow> 'k \<Rightarrow> 'v \<Rightarrow> ('k \<times> 'v) list" where
  "dict_set [] k v = [(k, v)]"
| "dict_set ((k', v') # kvs) k v =
     (if k' = k then (k, v) # kvs else (k', v') # dict_set kvs k v)"

fun substring :: "string \<Rightarrow> string \<Rightarrow> bool" where
  "substring p [] = (p = [])"
| "substring p (c # cs) = (take (length p) (c # cs) = p \<or> substring p cs)"

text \<open>\<^verbatim>\<open>k in v\<close> for a string \<open>k\<close>.\<close>

fun py_in :: "string \<Rightarrow> pyval \<Rightarrow> exn + bool" where
  "py_in k (PDict kvs) = Inr (k \<in> fst ` set kvs)"
| "py_in k (PList xs) = Inr (PStr k \<in> set xs)"
| "py_in k (PTuple xs) = Inr (PStr k \<in> set xs)"
| "py_in k (PStr s) = Inr (substring k s)"
| "py_in k PCyclic = Inr False"
| "py_in k _ = Inl TypeError"

text \<open>Attribute reads \<^verbatim>\<open>m.content\<close> and \<^verbatim>\<open>i.value\<close>.\<close>

fun attr_content :: "pyval \<Rightarrow> exn + pyval" where
  "attr_content (PMsg c v n) = Inr v"
| "attr_content _ = Inl AttributeError"

fun attr_value :: "pyval \<Rightarrow> exn + pyval" where
  "attr_value (PInterrupt v) = Inr v"
| "attr_value _ = Inl AttributeError"

fun is_tuple :: "pyval \<Rightarrow> bool" where
  "is_tuple (PTuple xs) = True"
| "is_tuple _ = False"

text \<open>\<^verbatim>\<open>isinstance(m, AIMessage)\<close>: \<^verbatim>\<open>AIMessageChunk\<close> is a subclass of \<^verbatim>\<open>AIMessage\<close>.\<close>

fun is_AIMessage :: "pyval \<Rightarrow> bool" where
  "is_AIMessage (PMsg c v n) = (c = AIMessage \<or> c = AIMessageChunk)"
| "is_AIMessage _ = False"

fun is_AIMessageChunk :: "pyval \<Rightarrow> bool" where
  "is_AIMessageChunk (PMsg c v n) = (c = AIMessageChunk)"
| "is_AIMessageChunk _ = False"

fun hashable :: "pyval \<Rightarrow> bool" where
  "hashable PNone = True"
| "hashable (PBool b) = True"
| "hashable (PInt i) = True"
| "hashable (PStr s) = True"
| "hashable (PTuple xs) = list_all hashable xs"
| "hashable (PObj c) = True"
| "hashable _ = False"

fun class_name :: "msg_class \<Rightarrow> string" where
  "class_name HumanMessage = ''HumanMessage''"
| "class_name AIMessage = ''AIMessage''"
| "class_name AIMessageChunk = ''AIMessageChunk''"
| "class_name ToolMessage = ''ToolMessage''"
| "class_name SystemMessage = ''SystemMessage''"

text \<open>\<^verbatim>\<open>type(v).__name__\<close>.\<close>

fun type_name :: "pyval \<Rightarrow> string" where
  "type_name PNone = ''NoneType''"
| "type_name (PBool b) = ''bool''"
| "type_name (PInt i) = ''int''"
| "type_name (PStr s) = ''str''"
| "type_name (PList xs) = ''list''"
| "type_name (PTuple xs) = ''tuple''"
| "type_name (PDict kvs) = ''dict''"
| "type_name (PMsg c v n) = class_name c"
| "type_name (PInterrupt v) = ''Interrupt''"
| "type_name (PObj c) = c"
| "type_name PCyclic = ''list''"

text \<open>\<^verbatim>\<open>json.dumps(v)\<close> used as a test: the first exception met in traversal order,
  \<^verbatim>\<open>TypeError\<close> on an object without a JSON form, \<^verbatim>\<open>ValueError\<close> on a circular
  reference.\<close>

fun first_error :: "exn option list \<Rightarrow> exn option" where
  "first_error [] = None"
| "first_error (None # es) = first_error es"
| "first_error (Some e # es) = Some e"

fun json_error :: "pyval \<Rightarrow> exn option" where
  "json_error PNone = None"
| "json_error (PBool b) = None"
| "json_error (PInt i) = None"
| "json_error (PStr s) = None"
| "json_error (PList xs) = first_error (map json_error xs)"
| "json_error (PTuple xs) = first_error (map json_error xs)"
| "json_error (PDict kvs) = first_error (map (\<lambda>kv. json_error (snd kv)) kvs)"
| "json_error (PMsg c v n) = Some TypeError"
| "json_error (PInterrupt v) = Some TypeError"
| "json_error (PObj c) = Some TypeError"
| "json_error PCyclic = Some ValueError"


section \<open>Requests, run configuration and the external collaborators\<close>

text \<open>
  \<^verbatim>\<open>UserInput\<close> and \<^verbatim>\<open>StreamInput\<close> (declared in \<^verbatim>\<open>schema/schema.py\<close>) with the fields
  the service reads. \<open>stream_node_updates\<close> is tested with \<^verbatim>\<open>is not False\<close>, so it is
  optional.
\<close>

record user_input =
  message :: string
  model :: "string option"
  thread_id :: "string option"
  user_id :: "string option"
  agent_config :: "(string \<times> pyval) list"
  stream_tokens :: bool
  stream_node_updates :: "bool option"

text \<open>\<^verbatim>\<open>ChatMessage\<close>: role, content and the run identifier attached by the service.\<close>

record chat_message =
  msg_type :: string
  content :: pyval
  run_id :: "string option"

text \<open>\<^verbatim>\<open>RunnableConfig\<close>: \<open>callbacks\<close> tells whether a telemetry handler is attached.\<close>

record run_config =
  configurable :: "(string \<times> pyval) list"
  config_run_id :: string
  callbacks :: bool

text \<open>The input handed to the engine: \<^verbatim>\<open>Command(resume=...)\<close> or
  \<^verbatim>\<open>{"messages": [...]}\<close>.\<close>

datatype agent_input = Resume string | Fresh "pyval list"

text \<open>What the engine's asynchronous iterator does next: yield an event or raise.\<close>

datatype stream_item = Yield pyval | Raise exn

text \<open>
  The execution engine (\<^verbatim>\<open>Pregel\<close>) is external. \<open>aget_state\<close> gives, for each pending
  task, its \<^verbatim>\<open>interrupts\<close> attribute when it has one; \<open>ainvoke\<close> the list of terminal
  events; \<open>astream\<close> the items of the event stream.
\<close>

record agent =
  aget_state :: "run_config \<Rightarrow> exn + pyval option list"
  ainvoke :: "agent_input \<Rightarrow> run_config \<Rightarrow> exn + pyval"
  astream :: "agent_input \<Rightarrow> run_config \<Rightarrow> stream_item list"

text \<open>
  Code the service calls that is not part of \<^verbatim>\<open>service.py\<close>, taken as parameters:
  the three helpers of \<^verbatim>\<open>service/utils.py\<close>; the parameter names of the \<^verbatim>\<open>AIMessage\<close>
  constructor (\<^verbatim>\<open>inspect.signature\<close>); the validation the message library applies to
  constructor arguments; Python's \<^verbatim>\<open>str()\<close>; and whether \<^verbatim>\<open>get_langfuse_callback\<close>
  finds credentials in the environment.
\<close>

record lib =
  langchain_to_chat_message :: "pyval \<Rightarrow> exn + chat_message"
  remove_tool_calls :: "pyval \<Rightarrow> exn + pyval"
  convert_message_content_to_string :: "pyval \<Rightarrow> exn + string"
  valid_keys :: "string list"
  accepts :: "msg_class \<Rightarrow> (string \<times> pyval) list \<Rightarrow> bool"
  py_str :: "pyval \<Rightarrow> string"
  langfuse_configured :: bool

text \<open>
  A message constructor called with keyword arguments: \<open>content\<close> is required, the
  library validates the arguments, and the object stores the content and the name given.
\<close>

definition new_message :: "lib \<Rightarrow> msg_class \<Rightarrow> (string \<times> pyval) list \<Rightarrow> exn + pyval" where
  "new_message l cls kw =
     (case map_of kw ''content'' of
        None \<Rightarrow> Inl TypeError
      | Some c \<Rightarrow>
          if accepts l cls kw
          then Inr (PMsg cls c (case map_of kw ''name'' of Some (PStr n) \<Rightarrow> Some n | _ \<Rightarrow> None))
          else Inl ValidationError)"

text \<open>\<^verbatim>\<open>agents[agent_id].graph\<close>.\<close>

definition get_agent :: "(string \<rightharpoonup> agent) \<Rightarrow> string \<Rightarrow> exn + agent" where
  "get_agent agents agent_id =
     (case agents agent_id of None \<Rightarrow> Inl KeyError | Some a \<Rightarrow> Inr a)"

text \<open>\<^verbatim>\<open>x or default\<close> on an optional string, and \<^verbatim>\<open>if x: c[k] = x\<close>: both \<^verbatim>\<open>None\<close>
  and the empty string count as absent.\<close>

fun str_or :: "string option \<Rightarrow> string \<Rightarrow> string" where
  "str_or None d = d"
| "str_or (Some s) d = (if s = [] then d else s)"

fun set_if_given :: "(string \<times> pyval) list \<Rightarrow> string \<Rightarrow> string option \<Rightarrow> (string \<times> pyval) list" where
  "set_if_given c k None = c"
| "set_if_given c k (Some s) = (if s = [] then c else dict_set c k (PStr s))"

definition update_all :: "(string \<times> pyval) list \<Rightarrow> (string \<times> pyval) list \<Rightarrow> (string \<times> pyval) list" where
  "update_all d new = fold (\<lambda>kv acc. dict_set acc (fst kv) (snd kv)) new d"

text \<open>
  \<^verbatim>\<open>_handle_input\<close>. The two \<^verbatim>\<open>uuid4()\<close> draws are the arguments \<open>rid\<close> (the run id)
  and \<open>fresh\<close> (the thread id used when the request gives none). The result is the
  engine input, the run configuration and the run id.
\<close>

definition build_configurable :: "string \<Rightarrow> user_input \<Rightarrow> (string \<times> pyval) list" where
  "build_configurable fresh ui =
     (let c0 = [(''thread_id'', PStr (str_or (thread_id ui) fresh))];
          c1 = set_if_given c0 ''model'' (model ui)
      in set_if_given c1 ''user_id'' (user_id ui))"

definition overlap :: "(string \<times> pyval) list \<Rightarrow> (string \<times> pyval) list \<Rightarrow> string list" where
  "overlap c ac = filter (\<lambda>k. k \<in> fst ` set ac) (map fst c)"

definition handle_input ::
  "lib \<Rightarrow> string \<Rightarrow> string \<Rightarrow> user_input \<Rightarrow> agent \<Rightarrow> exn + (agent_input \<times> run_config \<times> string)" where
  "handle_input l rid fresh ui ag =
     (let c = build_configurable fresh ui in
      if agent_config ui \<noteq> [] \<and> overlap c (agent_config ui) \<noteq> []
      then Inl (HTTPException 422 ''agent_config contains reserved keys'')
      else
        let c' = (if agent_config ui \<noteq> [] then update_all c (agent_config ui) else c);
            config = \<lparr>configurable = c', config_run_id = rid, callbacks = langfuse_configured l\<rparr>
        in and_then (aget_state ag config)
             (\<lambda>tasks.
                if filter (\<lambda>t. case t of None \<Rightarrow> False | Some i \<Rightarrow> truthy i) tasks \<noteq> []
                then Inr (Resume (message ui), config, rid)
                else and_then (new_message l HumanMessage [(''content'', PStr (message ui))])
                       (\<lambda>m. Inr (Fresh [m], config, rid))))"


section \<open>Frames of the event stream\<close>

text \<open>
  Each frame is one \<^verbatim>\<open>data: ...\<close> line. The JSON frames carry a \<^verbatim>\<open>type\<close>; \<open>Done\<close> is the
  literal \<^verbatim>\<open>data: [DONE]\<close>, which no JSON frame equals. A node-update frame holds the node,
  \<^verbatim>\<open>has_updates\<close>, the simplified updates and the run id; its fallback form holds the
  error marker \<^verbatim>\<open>Could not serialize node updates\<close> instead of the updates.
\<close>

datatype frame =
    NodeUpdate string bool "(string \<times> pyval) list" string
  | NodeUpdateError string bool string
  | Message chat_message
  | Token string
  | ErrorFrame string
  | Done

section \<open>Serialising node updates\<close>

definition get_message_type :: "pyval \<Rightarrow> string" where
  "get_message_type m =
     (let cn = type_name m in
      if substring ''HumanMessage'' cn then ''human''
      else if substring ''AIMessage'' cn then ''ai''
      else if substring ''ToolMessage'' cn \<or> substring ''FunctionMessage'' cn then ''tool''
      else cn)"

fun join_space :: "string list \<Rightarrow> string" where
  "join_space [] = []"
| "join_space [x] = x"
| "join_space (x # y # ys) = x @ '' '' @ join_space (y # ys)"

text \<open>The \<^verbatim>\<open>parts\<close> of a content list: the \<^verbatim>\<open>text\<close> entry of a dictionary that has one,
  and each string.\<close>

fun content_parts :: "pyval list \<Rightarrow> pyval list" where
  "content_parts [] = []"
| "content_parts (PDict kvs # ps) =
     (case map_of kvs ''text'' of None \<Rightarrow> content_parts ps | Some t \<Rightarrow> t # content_parts ps)"
| "content_parts (PStr s # ps) = PStr s # content_parts ps"
| "content_parts (p # ps) = content_parts ps"

fun str_of :: "pyval \<Rightarrow> string option" where
  "str_of (PStr s) = Some s"
| "str_of _ = None"

definition get_message_content :: "lib \<Rightarrow> pyval \<Rightarrow> string" where
  "get_message_content l m =
     (case m of
        PMsg c v n \<Rightarrow>
          (case v of
             PStr s \<Rightarrow> s
           | PList ps \<Rightarrow>
               (let parts = content_parts ps in
                if list_all (\<lambda>p. str_of p \<noteq> None) parts
                then join_space (List.map_filter str_of parts)
                else ''[Complex content]'')
           | PCyclic \<Rightarrow> []
           | _ \<Rightarrow> py_str l v)
      | _ \<Rightarrow> ''[No content]'')"

definition placeholder :: "pyval \<Rightarrow> pyval" where
  "placeholder v = PStr (''[Complex data: '' @ type_name v @ '']'')"

definition simplify_messages :: "lib \<Rightarrow> pyval \<Rightarrow> pyval" where
  "simplify_messages l ms =
     (case py_iter ms of
        Inl e \<Rightarrow> PStr ''[Messages present but could not be serialized]''
      | Inr xs \<Rightarrow>
          PList (map (\<lambda>m. PDict [(''type'', PStr (get_message_type m)),
                                  (''content'', PStr (get_message_content l m))]) xs))"

text \<open>The loop over \<^verbatim>\<open>updates.items()\<close>: only \<^verbatim>\<open>TypeError\<close> and \<^verbatim>\<open>OverflowError\<close> are
  caught there.\<close>

fun simplify_items ::
  "(string \<times> pyval) list \<Rightarrow> (string \<times> pyval) list \<Rightarrow> exn + (string \<times> pyval) list" where
  "simplify_items res [] = Inr res"
| "simplify_items res ((key, v) # kvs) =
     (if key \<noteq> ''messages''
      then (case json_error v of
              None \<Rightarrow> simplify_items (dict_set res key v) kvs
            | Some e \<Rightarrow>
                if e = TypeError then simplify_items (dict_set res key (placeholder v)) kvs
                else Inl e)
      else simplify_items res kvs)"

definition simplify_node_updates :: "lib \<Rightarrow> pyval \<Rightarrow> exn + (string \<times> pyval) list" where
  "simplify_node_updates l updates =
     (case updates of
        PNone \<Rightarrow> Inr []
      | PDict kvs \<Rightarrow>
          simplify_items
            (case map_of kvs ''messages'' of
               None \<Rightarrow> []
             | Some ms \<Rightarrow> [(''messages'', simplify_messages l ms)])
            kvs
      | _ \<Rightarrow>
          (case json_error updates of
             None \<Rightarrow> Inr [(''value'', updates)]
           | Some e \<Rightarrow> if e = TypeError then Inr [(''value'', placeholder updates)] else Inl e))"

text \<open>\<^verbatim>\<open>updates is not None and len(updates) > 0\<close>.\<close>

definition has_updates :: "pyval \<Rightarrow> exn + bool" where
  "has_updates updates =
     (if updates = PNone then Inr False else and_then (py_len updates) (\<lambda>n. Inr (0 < n)))"

text \<open>
  One pass of the first loop over \<^verbatim>\<open>event.items()\<close>: the \<^verbatim>\<open>try\<close> block builds and
  serialises the frame; its handler builds the fallback frame, evaluating
  \<^verbatim>\<open>len(updates)\<close> again.
\<close>

definition node_update_frame :: "lib \<Rightarrow> string \<Rightarrow> string \<Rightarrow> pyval \<Rightarrow> exn + frame" where
  "node_update_frame l rid node updates =
     (case and_then (has_updates updates)
             (\<lambda>h. and_then (simplify_node_updates l updates)
                (\<lambda>u. case json_error (PDict u) of
                        None \<Rightarrow> Inr (NodeUpdate node h u rid)
                      | Some e \<Rightarrow> Inl e)) of
        Inr f \<Rightarrow> Inr f
      | Inl e \<Rightarrow> and_then (has_updates updates) (\<lambda>h. Inr (NodeUpdateError node h rid)))"

text \<open>Frames emitted by the first loop, and the exception that ended it, if any.\<close>

fun node_update_frames ::
  "lib \<Rightarrow> string \<Rightarrow> (string \<times> pyval) list \<Rightarrow> frame list \<times> exn option" where
  "node_update_frames l rid [] = ([], None)"
| "node_update_frames l rid ((node, updates) # rest) =
     (case node_update_frame l rid node updates of
        Inl e \<Rightarrow> ([], Some e)
      | Inr f \<Rightarrow> (case node_update_frames l rid rest of (fs, r) \<Rightarrow> (f # fs, r)))"


section \<open>The node-update reducer\<close>

text \<open>The interrupt marker: each pending interrupt becomes
  \<^verbatim>\<open>AIMessage(content=interrupt.value)\<close>.\<close>

fun interrupt_messages :: "lib \<Rightarrow> pyval list \<Rightarrow> exn + pyval list" where
  "interrupt_messages l [] = Inr []"
| "interrupt_messages l (i # is) =
     and_then (attr_value i)
       (\<lambda>v. and_then (new_message l AIMessage [(''content'', v)])
          (\<lambda>m. and_then (interrupt_messages l is) (\<lambda>ms. Inr (m # ms))))"

text \<open>The supervisor case: when the list has assistant messages, only the last is kept.\<close>

definition supervisor_case :: "string \<Rightarrow> pyval \<Rightarrow> exn + pyval" where
  "supervisor_case node update_messages =
     (if node = ''supervisor''
      then and_then (py_iter update_messages)
             (\<lambda>xs. let ai_messages = filter is_AIMessage xs in
                    if ai_messages \<noteq> [] then Inr (PList [last ai_messages])
                    else Inr update_messages)
      else Inr update_messages)"

text \<open>The sub-agent case: \<^verbatim>\<open>ToolMessage(content=update_messages[0].content, name=node,
  tool_call_id="")\<close> replaces the list.\<close>

definition sub_agent_case :: "lib \<Rightarrow> string \<Rightarrow> pyval \<Rightarrow> exn + pyval" where
  "sub_agent_case l node update_messages =
     (if node = ''research_expert'' \<or> node = ''math_expert''
      then and_then (index_first update_messages)
             (\<lambda>first. and_then (attr_content first)
                (\<lambda>c. and_then
                        (new_message l ToolMessage
                           [(''content'', c), (''name'', PStr node), (''tool_call_id'', PStr [])])
                        (\<lambda>msg. Inr (PList [msg]))))
      else Inr update_messages)"

text \<open>The candidate messages one \<^verbatim>\<open>(node, updates)\<close> pair adds to \<^verbatim>\<open>new_messages\<close>.\<close>

definition node_messages :: "lib \<Rightarrow> string \<Rightarrow> pyval \<Rightarrow> exn + pyval list" where
  "node_messages l node updates =
     (if node = ''__interrupt__''
      then and_then (py_iter updates) (interrupt_messages l)
      else and_then (dict_get (if truthy updates then updates else PDict []) ''messages'' (PList []))
             (\<lambda>um. and_then (supervisor_case node um)
                (\<lambda>um1. and_then (sub_agent_case l node um1) py_iter)))"

fun collect_new_messages :: "lib \<Rightarrow> (string \<times> pyval) list \<Rightarrow> exn + pyval list" where
  "collect_new_messages l [] = Inr []"
| "collect_new_messages l ((node, updates) # rest) =
     and_then (node_messages l node updates)
       (\<lambda>ms. and_then (collect_new_messages l rest) (\<lambda>ms'. Inr (ms @ ms')))"

section \<open>The partial-message assembler\<close>

text \<open>\<^verbatim>\<open>_create_ai_message\<close>: the parts whose key is a parameter name of \<^verbatim>\<open>AIMessage\<close> are
  passed to the constructor.\<close>

fun filter_parts :: "string list \<Rightarrow> (pyval \<times> pyval) list \<Rightarrow> (string \<times> pyval) list" where
  "filter_parts vk [] = []"
| "filter_parts vk ((PStr s, v) # ps) =
     (if s \<in> set vk then (s, v) # filter_parts vk ps else filter_parts vk ps)"
| "filter_parts vk (p # ps) = filter_parts vk ps"

definition create_ai_message :: "lib \<Rightarrow> (pyval \<times> pyval) list \<Rightarrow> exn + pyval" where
  "create_ai_message l parts = new_message l AIMessage (filter_parts (valid_keys l) parts)"

text \<open>\<^verbatim>\<open>key, value = message; current_message[key] = value\<close>.\<close>

definition add_part :: "(pyval \<times> pyval) list \<Rightarrow> pyval \<Rightarrow> exn + (pyval \<times> pyval) list" where
  "add_part cur m =
     and_then (unpack2 m)
       (\<lambda>kv. if hashable (fst kv) then Inr (dict_set cur (fst kv) (snd kv)) else Inl TypeError)"

text \<open>The loop keeps two variables: the processed list and the one pending map.\<close>

record asm_state =
  processed_messages :: "pyval list"
  current_message :: "(pyval \<times> pyval) list"

definition asm_step :: "lib \<Rightarrow> asm_state \<Rightarrow> pyval \<Rightarrow> exn + asm_state" where
  "asm_step l st m =
     (if is_tuple m
      then and_then (add_part (current_message st) m)
             (\<lambda>cur. Inr (st\<lparr>current_message := cur\<rparr>))
      else if current_message st \<noteq> []
      then and_then (create_ai_message l (current_message st))
             (\<lambda>am. Inr \<lparr>processed_messages = processed_messages st @ [am, m],
                         current_message = []\<rparr>)
      else Inr (st\<lparr>processed_messages := processed_messages st @ [m]\<rparr>))"

fun asm_loop :: "lib \<Rightarrow> asm_state \<Rightarrow> pyval list \<Rightarrow> exn + asm_state" where
  "asm_loop l st [] = Inr st"
| "asm_loop l st (m # ms) = and_then (asm_step l st m) (\<lambda>st'. asm_loop l st' ms)"

definition asm_finish :: "lib \<Rightarrow> asm_state \<Rightarrow> exn + pyval list" where
  "asm_finish l st =
     (if current_message st \<noteq> []
      then and_then (create_ai_message l (current_message st))
             (\<lambda>am. Inr (processed_messages st @ [am]))
      else Inr (processed_messages st))"

definition assemble :: "lib \<Rightarrow> pyval list \<Rightarrow> exn + pyval list" where
  "assemble l new_messages =
     and_then (asm_loop l \<lparr>processed_messages = [], current_message = []\<rparr> new_messages)
       (asm_finish l)"

section \<open>Emitting messages and tokens\<close>

text \<open>
  Each processed message is converted and tagged with the run id; a failed conversion gives
  an error frame and the loop goes on; the echo of the input is dropped. The dump of a
  \<^verbatim>\<open>ChatMessage\<close> is taken to be serialisable.
\<close>

fun message_frames :: "lib \<Rightarrow> user_input \<Rightarrow> string \<Rightarrow> pyval list \<Rightarrow> frame list" where
  "message_frames l ui rid [] = []"
| "message_frames l ui rid (m # ms) =
     (case langchain_to_chat_message l m of
        Inl e \<Rightarrow> ErrorFrame ''Unexpected error'' # message_frames l ui rid ms
      | Inr cm \<Rightarrow>
          (let chat = cm\<lparr>run_id := Some rid\<rparr> in
           if msg_type chat = ''human'' \<and> content chat = PStr (message ui)
           then message_frames l ui rid ms
           else Message chat # message_frames l ui rid ms))"

definition token_frames :: "lib \<Rightarrow> user_input \<Rightarrow> pyval \<Rightarrow> frame list \<times> exn option" where
  "token_frames l ui event =
     (if \<not> stream_tokens ui then ([], None)
      else
        case and_then (unpack2 event)
               (\<lambda>mm. and_then (dict_get (snd mm) ''tags'' (PList []))
                  (\<lambda>tags. and_then (py_in ''skip_stream'' tags)
                     (\<lambda>skip.
                        if skip then Inr []
                        else if \<not> is_AIMessageChunk (fst mm) then Inr []
                        else and_then (attr_content (fst mm))
                               (\<lambda>c. and_then (remove_tool_calls l c)
                                  (\<lambda>c'. if truthy c'
                                         then and_then (convert_message_content_to_string l c')
                                                (\<lambda>s. Inr [Token s])
                                         else Inr []))))) of
          Inl e \<Rightarrow> ([], Some e)
        | Inr fs \<Rightarrow> (fs, None))"

section \<open>The streaming reducer\<close>

text \<open>The \<^verbatim>\<open>updates\<close> branch: the node-update frames, when enabled, then the candidate
  messages of the second loop.\<close>

definition updates_part ::
  "lib \<Rightarrow> user_input \<Rightarrow> string \<Rightarrow> pyval \<Rightarrow> frame list \<times> (exn + pyval list)" where
  "updates_part l ui rid event =
     (case dict_items event of
        Inl e \<Rightarrow> ([], Inl e)
      | Inr items \<Rightarrow>
          if stream_node_updates ui \<noteq> Some False
          then (case node_update_frames l rid items of
                  (fs, Some e) \<Rightarrow> (fs, Inl e)
                | (fs, None) \<Rightarrow> (fs, collect_new_messages l items))
          else ([], collect_new_messages l items))"

text \<open>One pass of the \<^verbatim>\<open>async for\<close> body: the frames it yields and the exception that
  leaves it, if any.\<close>

definition process_event ::
  "lib \<Rightarrow> user_input \<Rightarrow> string \<Rightarrow> pyval \<Rightarrow> frame list \<times> exn option" where
  "process_event l ui rid stream_event =
     (if \<not> is_tuple stream_event then ([], None)
      else
        case unpack2 stream_event of
          Inl e \<Rightarrow> ([], Some e)
        | Inr (stream_mode, event) \<Rightarrow>
            (case (if stream_mode = PStr ''updates'' then updates_part l ui rid event
                   else ([], Inr [])) of
               (fs1, Inl e) \<Rightarrow> (fs1, Some e)
             | (fs1, Inr nm) \<Rightarrow>
                 (case assemble l (if stream_mode = PStr ''custom'' then [event] else nm) of
                    Inl e \<Rightarrow> (fs1, Some e)
                  | Inr processed \<Rightarrow>
                      (let fs2 = message_frames l ui rid processed in
                       if stream_mode = PStr ''messages''
                       then (case token_frames l ui event of (fs3, r) \<Rightarrow> (fs1 @ fs2 @ fs3, r))
                       else (fs1 @ fs2, None)))))"

text \<open>The \<^verbatim>\<open>try\<close> / \<^verbatim>\<open>except\<close> / \<^verbatim>\<open>finally\<close> around the event loop.\<close>

fun run_stream :: "lib \<Rightarrow> user_input \<Rightarrow> string \<Rightarrow> stream_item list \<Rightarrow> frame list" where
  "run_stream l ui rid [] = [Done]"
| "run_stream l ui rid (Raise e # rest) = [ErrorFrame ''Internal server error'', Done]"
| "run_stream l ui rid (Yield ev # rest) =
     (case process_event l ui rid ev of
        (fs, None) \<Rightarrow> fs @ run_stream l ui rid rest
      | (fs, Some e) \<Rightarrow> fs @ [ErrorFrame ''Internal server error'', Done])"

text \<open>\<^verbatim>\<open>message_generator\<close>: \<open>Inl e\<close> when the exception \<open>e\<close> leaves the generator before
  any frame, otherwise the frames of the stream.\<close>

definition message_generator ::
  "lib \<Rightarrow> (string \<rightharpoonup> agent) \<Rightarrow> string \<Rightarrow> string \<Rightarrow> user_input \<Rightarrow> string \<Rightarrow> exn + frame list" where
  "message_generator l agents rid fresh ui agent_id =
     and_then (get_agent agents agent_id)
       (\<lambda>ag. and_then (handle_input l rid fresh ui ag)
          (\<lambda>k. Inr (run_stream l ui (snd (snd k)) (astream ag (fst k) (fst (snd k))))))"

section \<open>The invocation facade\<close>

definition terminal_output :: "lib \<Rightarrow> pyval \<Rightarrow> exn + chat_message" where
  "terminal_output l response_events =
     and_then (index_last response_events)
       (\<lambda>ev. and_then (unpack2 ev)
          (\<lambda>tr.
             if fst tr = PStr ''values''
             then and_then (subscript (snd tr) ''messages'')
                    (\<lambda>ms. and_then (index_last ms) (langchain_to_chat_message l))
             else and_then (if fst tr = PStr ''updates'' then py_in ''__interrupt__'' (snd tr)
                            else Inr False)
                    (\<lambda>marked.
                       if marked
                       then and_then (subscript (snd tr) ''__interrupt__'')
                              (\<lambda>is. and_then (index_first is)
                                 (\<lambda>i. and_then (attr_value i)
                                    (\<lambda>v. and_then (new_message l AIMessage [(''content'', v)])
                                       (langchain_to_chat_message l))))
                       else Inl ValueError)))"

definition invoke ::
  "lib \<Rightarrow> (string \<rightharpoonup> agent) \<Rightarrow> string \<Rightarrow> string \<Rightarrow> user_input \<Rightarrow> string \<Rightarrow> exn + chat_message" where
  "invoke l agents rid fresh ui agent_id =
     and_then (get_agent agents agent_id)
       (\<lambda>ag. and_then (handle_input l rid fresh ui ag)
          (\<lambda>k. case and_then (ainvoke ag (fst k) (fst (snd k)))
                       (\<lambda>events. and_then (terminal_output l events)
                          (\<lambda>output. Inr (output\<lparr>run_id := Some (snd (snd k))\<rparr>))) of
                  Inl e \<Rightarrow> Inl (HTTPException 500 ''Unexpected error'')
                | Inr output \<Rightarrow> Inr output))"


section \<open>The assembler as the specification describes it\<close>

text \<open>
  The specification speaks of runs of consecutive fragments: each run accumulates into one
  pending map and is flushed into one synthesised message; complete messages pass through.
  \<open>segments\<close> cuts a candidate list into its maximal fragment runs and its complete
  messages, \<open>synthesize\<close> turns each segment into one message, and \<open>assemble_by_runs\<close>
  does so in order, stopping at the first exception.
\<close>

datatype segment = Fragments "pyval list" | Complete pyval

fun segments :: "pyval list \<Rightarrow> segment list" where
  "segments [] = []"
| "segments (m # ms) =
     (if is_tuple m
      then (case segments ms of
              Fragments fs # rest \<Rightarrow> Fragments (m # fs) # rest
            | rest \<Rightarrow> Fragments [m] # rest)
      else Complete m # segments ms)"

fun add_parts :: "(pyval \<times> pyval) list \<Rightarrow> pyval list \<Rightarrow> exn + (pyval \<times> pyval) list" where
  "add_parts cur [] = Inr cur"
| "add_parts cur (f # fs) = and_then (add_part cur f) (\<lambda>cur'. add_parts cur' fs)"

fun synthesize :: "lib \<Rightarrow> segment \<Rightarrow> exn + pyval" where
  "synthesize l (Complete m) = Inr m"
| "synthesize l (Fragments fs) = and_then (add_parts [] fs) (create_ai_message l)"

fun in_order :: "(exn + 'a) list \<Rightarrow> exn + 'a list" where
  "in_order [] = Inr []"
| "in_order (r # rs) = and_then r (\<lambda>x. and_then (in_order rs) (\<lambda>xs. Inr (x # xs)))"

definition assemble_by_runs :: "lib \<Rightarrow> pyval list \<Rightarrow> exn + pyval list" where
  "assemble_by_runs l ms = in_order (map (synthesize l) (segments ms))"

section \<open>The converter as the specification describes it\<close>

text \<open>
  Modelled from the spec: \<^verbatim>\<open>langchain_to_chat_message\<close> lives in \<^verbatim>\<open>service/utils.py\<close>,
  which is not among the sources. The specification says that each complete message is
  converted to a \<^verbatim>\<open>ChatMessage\<close> with a role among \<^verbatim>\<open>human\<close>, \<^verbatim>\<open>ai\<close>, \<^verbatim>\<open>tool\<close>,
  \<^verbatim>\<open>system\<close> and the content of the message. What happens to a value that is not a message
  object is not said; it is the parameter \<open>other\<close>.
\<close>

fun role_of :: "msg_class \<Rightarrow> string" where
  "role_of HumanMessage = ''human''"
| "role_of AIMessage = ''ai''"
| "role_of AIMessageChunk = ''ai''"
| "role_of ToolMessage = ''tool''"
| "role_of SystemMessage = ''system''"

fun langchain_to_chat_message_spec ::
  "(pyval \<Rightarrow> exn + chat_message) \<Rightarrow> pyval \<Rightarrow> exn + chat_message" where
  "langchain_to_chat_message_spec other (PMsg c v n) =
     Inr \<lparr>msg_type = role_of c, content = v, run_id = None\<rparr>"
| "langchain_to_chat_message_spec other m = other m"

section \<open>Observations on streams\<close>

text \<open>Whether an exception is raised while the stream is consumed, by the engine or by the
  processing of an event.\<close>

fun stream_fails :: "lib \<Rightarrow> user_input \<Rightarrow> string \<Rightarrow> stream_item list \<Rightarrow> bool" where
  "stream_fails l ui rid [] = False"
| "stream_fails l ui rid (Raise e # rest) = True"
| "stream_fails l ui rid (Yield ev # rest) =
     (case snd (process_event l ui rid ev) of
        None \<Rightarrow> stream_fails l ui rid rest
      | Some e \<Rightarrow> True)"

text \<open>The outcome of a stream request is a stream of frames that ends with the sentinel and
  holds it once; and its frame before the sentinel is the error frame of the handler.\<close>

fun ends_with_single_done :: "exn + frame list \<Rightarrow> bool" where
  "ends_with_single_done (Inl e) = False"
| "ends_with_single_done (Inr fs) = (fs \<noteq> [] \<and> last fs = Done \<and> count_list fs Done = 1)"

fun error_before_done :: "exn + frame list \<Rightarrow> bool" where
  "error_before_done (Inl e) = False"
| "error_before_done (Inr fs) =
     (butlast fs \<noteq> [] \<and> last (butlast fs) = ErrorFrame ''Internal server error'')"

fun is_message_frame :: "frame \<Rightarrow> bool" where
  "is_message_frame (Message cm) = True"
| "is_message_frame _ = False"

text \<open>A node update without messages: a falsy value, or a dictionary whose \<^verbatim>\<open>messages\<close>
  entry is absent or an empty list.\<close>

fun no_messages :: "pyval \<Rightarrow> bool" where
  "no_messages (PDict kvs) =
     (case map_of kvs ''messages'' of None \<Rightarrow> True | Some ms \<Rightarrow> ms = PList [])"
| "no_messages v = (\<not> truthy v)"

section \<open>Fixtures\<close>

text \<open>
  Concrete collaborators in the manner of \<^verbatim>\<open>tests/service/conftest.py\<close>: an engine that
  has no pending interrupt and answers with fixed events, helpers that accept every
  message, and a request that sets only the message.
\<close>

definition mock_agent :: "pyval \<Rightarrow> stream_item list \<Rightarrow> agent" where
  "mock_agent events items =
     \<lparr>aget_state = (\<lambda>c. Inr []), ainvoke = (\<lambda>i c. Inr events), astream = (\<lambda>i c. items)\<rparr>"

definition mock_lib :: lib where
  "mock_lib =
     \<lparr>langchain_to_chat_message = langchain_to_chat_message_spec (\<lambda>v. Inl ValueError),
      remove_tool_calls = Inr,
      convert_message_content_to_string = (\<lambda>v. case str_of v of None \<Rightarrow> Inl TypeError | Some s \<Rightarrow> Inr s),
      valid_keys = [''content'', ''name''],
      accepts = (\<lambda>c kw. True),
      py_str = (\<lambda>v. ''object''),
      langfuse_configured = False\<rparr>"

definition request :: "string \<Rightarrow> user_input" where
  "request q =
     \<lparr>message = q, model = None, thread_id = None, user_id = None, agent_config = [],
      stream_tokens = True, stream_node_updates = None\<rparr>"

definition registry :: "agent \<Rightarrow> string \<rightharpoonup> agent" where
  "registry ag = [''research-assistant'' \<mapsto> ag]"


text \<open>Events and requests used as examples: the engine's answer to the question
  \<^verbatim>\<open>hi\<close>, echoing the question first.\<close>

definition answer_event :: pyval where
  "answer_event =
     PTuple [PStr ''updates'',
       PDict [(''chat_model'',
         PDict [(''messages'',
           PList [PMsg HumanMessage (PStr ''hi'') None, PMsg AIMessage (PStr ''sunny'') None])])]]"

definition values_event :: pyval where
  "values_event =
     PTuple [PStr ''values'',
       PDict [(''messages'', PList [PMsg AIMessage (PStr ''The weather in Tokyo is sunny.'') None])]]"

text \<open>A \<^verbatim>\<open>message\<close> frame that carries the echo of the request: a human-role message whose
  content is the message of the request.\<close>

fun is_echo :: "user_input \<Rightarrow> frame \<Rightarrow> bool" where
  "is_echo ui (Message cm) = (msg_type cm = ''human'' \<and> content cm = PStr (message ui))"
| "is_echo ui _ = False"

text \<open>The second request of \<^verbatim>\<open>test_invoke_custom_agent_config\<close>, a node update that is
  an integer, and a sub-agent update with an empty message list.\<close>

definition reserved_model_request :: user_input where
  "reserved_model_request =
     (request ''What is the weather in Tokyo?'')\<lparr>agent_config := [(''model'', PStr ''gpt-4o'')]\<rparr>"

definition unsized_update_event :: pyval where
  "unsized_update_event = PTuple [PStr ''updates'', PDict [(''agent'', PInt 5)]]"

definition empty_sub_agent_event :: pyval where
  "empty_sub_agent_event =
     PTuple [PStr ''updates'', PDict [(''math_expert'', PDict [(''messages'', PList [])])]]"

section \<open>Further definitions for the statements\<close>

text \<open>The items of a segment, and the shape of a segmentation into maximal runs: a run of
  fragments is not empty, holds fragments only and is not followed by another run; a
  complete message is not a fragment.\<close>

fun segment_items :: "segment \<Rightarrow> pyval list" where
  "segment_items (Fragments fs) = fs"
| "segment_items (Complete m) = [m]"

fun maximal_runs :: "segment list \<Rightarrow> bool" where
  "maximal_runs [] = True"
| "maximal_runs (Complete m # rest) = (\<not> is_tuple m \<and> maximal_runs rest)"
| "maximal_runs (Fragments fs # rest) =
     (fs \<noteq> [] \<and> list_all is_tuple fs \<and>
      (case rest of Fragments gs # rest' \<Rightarrow> False | _ \<Rightarrow> True) \<and> maximal_runs rest)"

text \<open>The assembly that remains when a pending map \<open>cur\<close> is live: the run in progress
  goes on with the fragments that follow.\<close>

definition resume_runs :: "lib \<Rightarrow> (pyval \<times> pyval) list \<Rightarrow> pyval list \<Rightarrow> exn + pyval list" where
  "resume_runs l cur ms =
     (case segments ms of
        Fragments fs # rest \<Rightarrow>
          and_then (and_then (add_parts cur fs) (create_ai_message l))
            (\<lambda>a. and_then (in_order (map (synthesize l) rest)) (\<lambda>r. Inr (a # r)))
      | rest \<Rightarrow>
          if cur \<noteq> []
          then and_then (create_ai_message l cur)
                 (\<lambda>a. and_then (in_order (map (synthesize l) rest)) (\<lambda>r. Inr (a # r)))
          else in_order (map (synthesize l) rest))"


definition fragment_candidates :: "pyval list" where
  "fragment_candidates =
     [PTuple [PStr ''content'', PStr ''a''], PTuple [PStr ''name'', PStr ''n''],
      PMsg HumanMessage (PStr ''q'') None, PTuple [PStr ''content'', PStr ''b'']]"

definition supervisor_messages :: "pyval list" where
  "supervisor_messages =
     [PMsg HumanMessage (PStr ''hi'') None, PMsg AIMessage (PStr ''first'') None,
      PMsg ToolMessage (PStr ''4'') (Some ''math_expert''), PMsg AIMessage (PStr ''second'') None]"


section \<open>Auxiliary facts\<close>

lemma and_then_Inr_iff: "and_then m f = Inr y \<longleftrightarrow> (\<exists>x. m = Inr x \<and> f x = Inr y)"
  by (cases m) auto

lemma and_then_Inl_iff: "and_then m f = Inl e \<longleftrightarrow> m = Inl e \<or> (\<exists>x. m = Inr x \<and> f x = Inl e)"
  by (cases m) auto

lemma handle_input_rid: "handle_input l rid fresh ui ag = Inr k \<Longrightarrow> snd (snd k) = rid"
  by (auto simp: handle_input_def Let_def and_then_Inr_iff split: if_splits)

subsection \<open>Which frames each stage emits\<close>

lemma node_update_frame_kind:
  "node_update_frame l rid node u = Inr f \<Longrightarrow> f \<noteq> Done \<and> \<not> is_message_frame f"
  by (auto simp: node_update_frame_def and_then_Inr_iff split: sum.splits option.splits)

lemma node_update_frames_kind:
  "f \<in> set (fst (node_update_frames l rid items)) \<Longrightarrow> f \<noteq> Done \<and> \<not> is_message_frame f"
proof (induction items arbitrary: f)
  case Nil
  then show ?case by simp
next
  case (Cons a items)
  obtain node u where a: "a = (node, u)" by (cases a)
  show ?case
  proof (cases "node_update_frame l rid node u")
    case (Inl e)
    with Cons.prems a show ?thesis by simp
  next
    case (Inr g)
    with Cons.prems a have "f = g \<or> f \<in> set (fst (node_update_frames l rid items))"
      by (auto split: prod.splits)
    with Inr Cons.IH show ?thesis
      using node_update_frame_kind by blast
  qed
qed

lemma message_frames_not_done: "f \<in> set (message_frames l ui rid ms) \<Longrightarrow> f \<noteq> Done"
  by (induction ms) (auto split: sum.splits if_splits simp: Let_def)

lemma message_frames_no_echo:
  "Message cm \<in> set (message_frames l ui rid ms) \<Longrightarrow>
     \<not> (msg_type cm = ''human'' \<and> content cm = PStr (message ui))"
  by (induction ms) (auto split: sum.splits if_splits simp: Let_def)

lemma token_frames_kind:
  "f \<in> set (fst (token_frames l ui ev)) \<Longrightarrow> f \<noteq> Done \<and> \<not> is_message_frame f"
  by (auto simp: token_frames_def and_then_Inr_iff split: sum.splits if_splits)

lemma node_update_frames_kind':
  "node_update_frames l rid items = (fs, r) \<Longrightarrow> f \<in> set fs \<Longrightarrow> f \<noteq> Done \<and> \<not> is_message_frame f"
  using node_update_frames_kind [of f l rid items] by simp

lemma updates_part_kind:
  "f \<in> set (fst (updates_part l ui rid ev)) \<Longrightarrow> f \<noteq> Done \<and> \<not> is_message_frame f"
  by (auto simp: updates_part_def split: sum.splits prod.splits option.splits if_splits
      dest: node_update_frames_kind')

lemma updates_part_kind':
  "updates_part l ui rid ev = (fs, r) \<Longrightarrow> f \<in> set fs \<Longrightarrow> f \<noteq> Done \<and> \<not> is_message_frame f"
  using updates_part_kind [of f l ui rid ev] by simp

lemma token_frames_kind':
  "token_frames l ui ev = (fs, r) \<Longrightarrow> f \<in> set fs \<Longrightarrow> f \<noteq> Done \<and> \<not> is_message_frame f"
  using token_frames_kind [of f l ui ev] by simp

lemma process_event_frames:
  "\<exists>fs1 ms fs3. fst (process_event l ui rid ev) = fs1 @ message_frames l ui rid ms @ fs3 \<and>
     (\<forall>f\<in>set (fs1 @ fs3). f \<noteq> Done \<and> \<not> is_message_frame f)"
proof -
  have base: "\<exists>fs1 ms fs3. [] = fs1 @ message_frames l ui rid ms @ fs3 \<and>
     (\<forall>f\<in>set (fs1 @ fs3). f \<noteq> Done \<and> \<not> is_message_frame f)"
    by (rule exI [of _ "[]"], rule exI [of _ "[]"], rule exI [of _ "[]"]) simp
  have only1: "\<exists>fs1 ms fs3. fs = fs1 @ message_frames l ui rid ms @ fs3 \<and>
     (\<forall>f\<in>set (fs1 @ fs3). f \<noteq> Done \<and> \<not> is_message_frame f)"
    if "\<forall>f\<in>set fs. f \<noteq> Done \<and> \<not> is_message_frame f" for fs
    using that by (intro exI [of _ fs] exI [of _ "[]"]) simp
  show ?thesis
  proof (cases "is_tuple ev")
    case False
    then show ?thesis using base by (simp add: process_event_def)
  next
    case True
    show ?thesis
    proof (cases "unpack2 ev")
      case (Inl e)
      then show ?thesis using True base by (simp add: process_event_def)
    next
      case (Inr p)
      obtain mode event where p: "p = (mode, event)" by (cases p)
      define up where "up = (if mode = PStr ''updates'' then updates_part l ui rid event else ([], Inr []))"
      obtain fs1 r1 where up_eq: "up = (fs1, r1)" by (cases up)
      have k1: "\<forall>f\<in>set fs1. f \<noteq> Done \<and> \<not> is_message_frame f"
        using up_eq updates_part_kind' [of l ui rid event fs1 r1]
        by (auto simp: up_def split: if_splits)
      show ?thesis
      proof (cases r1)
        case (Inl e)
        then have "fst (process_event l ui rid ev) = fs1"
          using True Inr p up_eq by (simp add: process_event_def up_def)
        then show ?thesis using only1 [OF k1] by simp
      next
        case nm: (Inr nm)
        show ?thesis
        proof (cases "assemble l (if mode = PStr ''custom'' then [event] else nm)")
          case (Inl e)
          then have "fst (process_event l ui rid ev) = fs1"
            using True Inr p up_eq nm by (simp add: process_event_def up_def)
          then show ?thesis using only1 [OF k1] by simp
        next
          case pr: (Inr processed)
          obtain fs3 r3 where tf: "token_frames l ui event = (fs3, r3)"
            by (cases "token_frames l ui event")
          have k3: "\<forall>f\<in>set fs3. f \<noteq> Done \<and> \<not> is_message_frame f"
            using token_frames_kind' [OF tf] by blast
          have "fst (process_event l ui rid ev) =
                  fs1 @ message_frames l ui rid processed @ (if mode = PStr ''messages'' then fs3 else [])"
            using True Inr p up_eq nm pr tf by (simp add: process_event_def up_def Let_def)
          moreover have "\<forall>f\<in>set (fs1 @ (if mode = PStr ''messages'' then fs3 else [])).
              f \<noteq> Done \<and> \<not> is_message_frame f"
            using k1 k3 by auto
          ultimately show ?thesis by blast
        qed
      qed
    qed
  qed
qed

lemma process_event_not_done: "f \<in> set (fst (process_event l ui rid ev)) \<Longrightarrow> f \<noteq> Done"
proof -
  assume a: "f \<in> set (fst (process_event l ui rid ev))"
  obtain fs1 ms fs3 where
    eq: "fst (process_event l ui rid ev) = fs1 @ message_frames l ui rid ms @ fs3" and
    k: "\<forall>f\<in>set (fs1 @ fs3). f \<noteq> Done \<and> \<not> is_message_frame f"
    using process_event_frames [of l ui rid ev] by blast
  from a eq have "f \<in> set (fs1 @ fs3) \<or> f \<in> set (message_frames l ui rid ms)" by auto
  then show ?thesis
  proof
    assume "f \<in> set (fs1 @ fs3)"
    with k show ?thesis by blast
  next
    assume "f \<in> set (message_frames l ui rid ms)"
    then show ?thesis by (rule message_frames_not_done)
  qed
qed

lemma process_event_no_echo:
  "Message cm \<in> set (fst (process_event l ui rid ev)) \<Longrightarrow>
     \<not> (msg_type cm = ''human'' \<and> content cm = PStr (message ui))"
proof -
  assume a: "Message cm \<in> set (fst (process_event l ui rid ev))"
  obtain fs1 ms fs3 where
    eq: "fst (process_event l ui rid ev) = fs1 @ message_frames l ui rid ms @ fs3" and
    k: "\<forall>f\<in>set (fs1 @ fs3). f \<noteq> Done \<and> \<not> is_message_frame f"
    using process_event_frames [of l ui rid ev] by blast
  have "Message cm \<notin> set (fs1 @ fs3)"
  proof
    assume "Message cm \<in> set (fs1 @ fs3)"
    with k have "\<not> is_message_frame (Message cm)" by blast
    then show False by simp
  qed
  with a eq have "Message cm \<in> set (message_frames l ui rid ms)" by auto
  then show ?thesis by (rule message_frames_no_echo)
qed

lemma run_stream_shape:
  "\<exists>fs. run_stream l ui rid items = fs @ [Done] \<and> Done \<notin> set fs \<and>
        (stream_fails l ui rid items \<longrightarrow> fs \<noteq> [] \<and> last fs = ErrorFrame ''Internal server error'')"
proof (induction l ui rid items rule: run_stream.induct)
  case (1 l ui rid)
  show ?case by simp
next
  case (2 l ui rid e rest)
  show ?case by simp
next
  case (3 l ui rid ev rest)
  obtain fs r where pe: "process_event l ui rid ev = (fs, r)" by (cases "process_event l ui rid ev")
  have nd: "Done \<notin> set fs" using process_event_not_done [of Done l ui rid ev] pe by auto
  show ?case
  proof (cases r)
    case None
    from 3 [OF pe [symmetric, unfolded None], OF refl] obtain gs where
      gs: "run_stream l ui rid rest = gs @ [Done]" "Done \<notin> set gs"
        "stream_fails l ui rid rest \<longrightarrow> gs \<noteq> [] \<and> last gs = ErrorFrame ''Internal server error''"
      by blast
    have "run_stream l ui rid (Yield ev # rest) = (fs @ gs) @ [Done]"
      using pe None gs(1) by simp
    moreover have "Done \<notin> set (fs @ gs)" using nd gs(2) by simp
    moreover have "stream_fails l ui rid (Yield ev # rest) \<longrightarrow>
        fs @ gs \<noteq> [] \<and> last (fs @ gs) = ErrorFrame ''Internal server error''"
      using pe None gs(3) by simp
    ultimately show ?thesis by blast
  next
    case (Some e)
    have "run_stream l ui rid (Yield ev # rest) = (fs @ [ErrorFrame ''Internal server error'']) @ [Done]"
      using pe Some by simp
    moreover have "Done \<notin> set (fs @ [ErrorFrame ''Internal server error''])" using nd by simp
    ultimately show ?thesis by (metis snoc_eq_iff_butlast last_snoc)
  qed
qed


section \<open>Stream termination\<close>

lemma run_stream_single_done:
  "ends_with_single_done (Inr (run_stream l ui rid items)) \<and>
   (stream_fails l ui rid items \<longrightarrow> error_before_done (Inr (run_stream l ui rid items)))"
proof -
  obtain fs where fs: "run_stream l ui rid items = fs @ [Done]" "Done \<notin> set fs"
    "stream_fails l ui rid items \<longrightarrow> fs \<noteq> [] \<and> last fs = ErrorFrame ''Internal server error''"
    using run_stream_shape [of l ui rid items] by blast
  have "count_list fs Done = 0" using fs(2) by (simp add: count_list_0_iff)
  then show ?thesis using fs by simp
qed

text \<open>
  C1 (as amended). The agent lookup and the input handling run before the \<^verbatim>\<open>try\<close> block:
  when either raises, the exception leaves the generator and no frame is emitted. Otherwise
  the stream ends with the sentinel and holds it exactly once, whether or not an exception
  is raised while the events are consumed; when one is raised, the frame before the
  sentinel is the error frame and the exception goes no further.
\<close>

theorem message_generator_ends_with_done:
  "case get_agent agents agent_id of
     Inl e \<Rightarrow> message_generator l agents rid fresh ui agent_id = Inl e
   | Inr ag \<Rightarrow>
       (case handle_input l rid fresh ui ag of
          Inl e \<Rightarrow> message_generator l agents rid fresh ui agent_id = Inl e
        | Inr k \<Rightarrow>
            ends_with_single_done (message_generator l agents rid fresh ui agent_id) \<and>
            (stream_fails l ui rid (astream ag (fst k) (fst (snd k))) \<longrightarrow>
               error_before_done (message_generator l agents rid fresh ui agent_id)))"
proof (cases "get_agent agents agent_id")
  case (Inl e)
  then show ?thesis by (simp add: message_generator_def)
next
  case ag: (Inr ag)
  show ?thesis
  proof (cases "handle_input l rid fresh ui ag")
    case (Inl e)
    with ag show ?thesis by (simp add: message_generator_def)
  next
    case (Inr k)
    have r: "snd (snd k) = rid" using Inr by (rule handle_input_rid)
    have "message_generator l agents rid fresh ui agent_id =
            Inr (run_stream l ui rid (astream ag (fst k) (fst (snd k))))"
      using ag Inr r by (simp add: message_generator_def)
    with run_stream_single_done [of l ui rid "astream ag (fst k) (fst (snd k))"] ag Inr
    show ?thesis by simp
  qed
qed

theorem message_generator_ends_with_done_witness:
  "message_generator mock_lib
     (registry (mock_agent (PList []) [Yield answer_event, Raise (EngineError ''boom'')]))
     ''run-1'' ''thread-1'' (request ''hi'') ''research-assistant'' =
   Inr [NodeUpdate ''chat_model'' True
          [(''messages'',
            PList [PDict [(''type'', PStr ''human''), (''content'', PStr ''hi'')],
                   PDict [(''type'', PStr ''ai''), (''content'', PStr ''sunny'')]])]
          ''run-1'',
        Message \<lparr>msg_type = ''ai'', content = PStr ''sunny'', run_id = Some ''run-1''\<rparr>,
        ErrorFrame ''Internal server error'', Done] \<and>
   ends_with_single_done
     (message_generator mock_lib
        (registry (mock_agent (PList []) [Yield answer_event, Raise (EngineError ''boom'')]))
        ''run-1'' ''thread-1'' (request ''hi'') ''research-assistant'') \<and>
   error_before_done
     (message_generator mock_lib
        (registry (mock_agent (PList []) [Yield answer_event, Raise (EngineError ''boom'')]))
        ''run-1'' ''thread-1'' (request ''hi'') ''research-assistant'')"
proof -
  let ?ag = "mock_agent (PList []) [Yield answer_event, Raise (EngineError ''boom'')]"
  have g: "get_agent (registry ?ag) ''research-assistant'' = Inr ?ag"
    by (simp add: get_agent_def registry_def)
  have h: "handle_input mock_lib ''run-1'' ''thread-1'' (request ''hi'') ?ag =
      Inr (Fresh [PMsg HumanMessage (PStr ''hi'') None],
           \<lparr>configurable = [(''thread_id'', PStr ''thread-1'')], config_run_id = ''run-1'',
             callbacks = False\<rparr>, ''run-1'')"
    by code_simp
  have a: "astream ?ag (Fresh [PMsg HumanMessage (PStr ''hi'') None])
      \<lparr>configurable = [(''thread_id'', PStr ''thread-1'')], config_run_id = ''run-1'',
        callbacks = False\<rparr> = [Yield answer_event, Raise (EngineError ''boom'')]"
    by (simp add: mock_agent_def)
  have f: "stream_fails mock_lib (request ''hi'') ''run-1''
      [Yield answer_event, Raise (EngineError ''boom'')]"
    by code_simp
  have v: "message_generator mock_lib (registry ?ag) ''run-1'' ''thread-1'' (request ''hi'')
      ''research-assistant'' =
   Inr [NodeUpdate ''chat_model'' True
          [(''messages'',
            PList [PDict [(''type'', PStr ''human''), (''content'', PStr ''hi'')],
                   PDict [(''type'', PStr ''ai''), (''content'', PStr ''sunny'')]])]
          ''run-1'',
        Message \<lparr>msg_type = ''ai'', content = PStr ''sunny'', run_id = Some ''run-1''\<rparr>,
        ErrorFrame ''Internal server error'', Done]"
    by code_simp
  from message_generator_ends_with_done
         [where agents = "registry ?ag" and agent_id = "''research-assistant''" and l = mock_lib
            and rid = "''run-1''" and fresh = "''thread-1''" and ui = "request ''hi''"]
  show ?thesis unfolding g sum.case h prod.sel a using f v by simp
qed

theorem message_generator_without_done_counterexample:
  "\<not> ends_with_single_done
       (message_generator mock_lib (registry (mock_agent (PList []) [Yield answer_event]))
          ''run-1'' ''thread-1''
          ((request ''hi'')\<lparr>agent_config := [(''thread_id'', PStr ''t-9'')]\<rparr>)
          ''research-assistant'') \<and>
   \<not> ends_with_single_done
       (message_generator mock_lib (registry (mock_agent (PList []) [Yield answer_event]))
          ''run-1'' ''thread-1'' (request ''hi'') ''unknown-agent'')"
  by code_simp

section \<open>Echo suppression, reserved keys and failures inside an event\<close>

lemma run_stream_no_echo: "f \<in> set (run_stream l ui rid items) \<Longrightarrow> \<not> is_echo ui f"
proof (induction l ui rid items rule: run_stream.induct)
  case (1 l ui rid)
  then show ?case by simp
next
  case (2 l ui rid e rest)
  then show ?case by auto
next
  case (3 l ui rid ev rest)
  obtain fs r where pe: "process_event l ui rid ev = (fs, r)" by (cases "process_event l ui rid ev")
  have fs: "\<not> is_echo ui g" if "g \<in> set fs" for g
  proof (cases g)
    case (Message cm)
    with that pe process_event_no_echo [of cm l ui rid ev] show ?thesis by simp
  qed simp_all
  show ?case
  proof (cases r)
    case None
    with 3(2) pe have "f \<in> set fs \<or> f \<in> set (run_stream l ui rid rest)" by auto
    then show ?thesis using fs 3(1) [OF pe [symmetric, unfolded None], OF refl] by blast
  next
    case (Some e)
    with 3(2) pe have "f \<in> set fs \<or> f = ErrorFrame ''Internal server error'' \<or> f = Done" by auto
    then show ?thesis using fs by auto
  qed
qed

text \<open>
  C9. No frame of a stream is a \<^verbatim>\<open>message\<close> frame that carries a human-role message whose
  content equals the message of the request, whatever the converter and the engine do.
\<close>

theorem input_echo_never_streamed:
  "message_generator l agents rid fresh ui agent_id = Inr fs \<Longrightarrow> f \<in> set fs \<Longrightarrow> \<not> is_echo ui f"
  by (auto simp: message_generator_def and_then_Inr_iff handle_input_rid
      dest!: run_stream_no_echo)


theorem input_echo_never_streamed_witness:
  "message_generator mock_lib (registry (mock_agent (PList []) [Yield answer_event]))
     ''run-1'' ''thread-1'' (request ''hi'') ''research-assistant'' =
   Inr [NodeUpdate ''chat_model'' True
          [(''messages'',
            PList [PDict [(''type'', PStr ''human''), (''content'', PStr ''hi'')],
                   PDict [(''type'', PStr ''ai''), (''content'', PStr ''sunny'')]])]
          ''run-1'',
        Message \<lparr>msg_type = ''ai'', content = PStr ''sunny'', run_id = Some ''run-1''\<rparr>,
        Done] \<and>
   \<not> is_echo (request ''hi'')
       (Message \<lparr>msg_type = ''ai'', content = PStr ''sunny'', run_id = Some ''run-1''\<rparr>)"
proof -
  have v: "message_generator mock_lib (registry (mock_agent (PList []) [Yield answer_event]))
     ''run-1'' ''thread-1'' (request ''hi'') ''research-assistant'' =
   Inr [NodeUpdate ''chat_model'' True
          [(''messages'',
            PList [PDict [(''type'', PStr ''human''), (''content'', PStr ''hi'')],
                   PDict [(''type'', PStr ''ai''), (''content'', PStr ''sunny'')]])]
          ''run-1'',
        Message \<lparr>msg_type = ''ai'', content = PStr ''sunny'', run_id = Some ''run-1''\<rparr>,
        Done]"
    by code_simp
  from input_echo_never_streamed [OF v,
      of "Message \<lparr>msg_type = ''ai'', content = PStr ''sunny'', run_id = Some ''run-1''\<rparr>"]
  have "\<not> is_echo (request ''hi'')
       (Message \<lparr>msg_type = ''ai'', content = PStr ''sunny'', run_id = Some ''run-1''\<rparr>)"
    by simp
  with v show ?thesis by simp
qed

text \<open>
  C2, at the request of \<^verbatim>\<open>test_invoke_custom_agent_config\<close>: \<^verbatim>\<open>agent_config\<close> holds the
  key \<^verbatim>\<open>model\<close> and the request gives no top-level model. The input is accepted, the key
  goes into the run configuration and the engine is invoked.
\<close>

theorem reserved_model_key_is_accepted:
  "handle_input mock_lib ''run-1'' ''thread-1'' reserved_model_request
     (mock_agent (PList [values_event]) []) =
   Inr (Fresh [PMsg HumanMessage (PStr ''What is the weather in Tokyo?'') None],
        \<lparr>configurable = [(''thread_id'', PStr ''thread-1''), (''model'', PStr ''gpt-4o'')],
          config_run_id = ''run-1'', callbacks = False\<rparr>,
        ''run-1'') \<and>
   invoke mock_lib (registry (mock_agent (PList [values_event]) [])) ''run-1'' ''thread-1''
     reserved_model_request ''research-assistant'' =
   Inr \<lparr>msg_type = ''ai'', content = PStr ''The weather in Tokyo is sunny.'',
         run_id = Some ''run-1''\<rparr>"
  by code_simp

lemma unsized_update_raises:
  "updates \<noteq> PNone \<Longrightarrow> py_len updates = Inl e \<Longrightarrow> node_update_frame l rid node updates = Inl e"
  by (simp add: node_update_frame_def has_updates_def)

text \<open>
  C3, at an update value without a length: \<^verbatim>\<open>len(updates)\<close> raises in the \<^verbatim>\<open>try\<close>
  block and again in its handler, so no frame is emitted for the node, the stream ends with
  the error frame and the sentinel, and the answer that follows is never processed.
\<close>

theorem unsized_update_ends_stream:
  "node_update_frame mock_lib ''run-1'' ''agent'' (PInt 5) = Inl TypeError \<and>
   message_generator mock_lib
     (registry (mock_agent (PList []) [Yield unsized_update_event, Yield answer_event]))
     ''run-1'' ''thread-1'' (request ''hi'') ''research-assistant'' =
   Inr [ErrorFrame ''Internal server error'', Done]"
  by code_simp

lemma no_messages_raises:
  assumes "node = ''research_expert'' \<or> node = ''math_expert''" and "no_messages upd"
  shows "node_messages l node upd = Inl IndexError"
proof -
  have "dict_get (if truthy upd then upd else PDict []) ''messages'' (PList []) = Inr (PList [])"
    using assms(2) by (cases upd) (auto split: option.splits)
  moreover have "supervisor_case node (PList []) = Inr (PList [])"
    using assms(1) by (auto simp: supervisor_case_def)
  moreover have "sub_agent_case l node (PList []) = Inl IndexError"
    using assms(1) by (auto simp: sub_agent_case_def)
  ultimately show ?thesis using assms(1) by (auto simp: node_messages_def)
qed

lemma collect_new_messages_fails:
  "(node, upd) \<in> set items \<Longrightarrow> node_messages l node upd = Inl e \<Longrightarrow>
     \<exists>e'. collect_new_messages l items = Inl e'"
proof (induction items)
  case Nil
  then show ?case by simp
next
  case (Cons a items)
  obtain n u where a: "a = (n, u)" by (cases a)
  show ?case
  proof (cases "node_messages l n u")
    case (Inl e1)
    then show ?thesis using a by simp
  next
    case (Inr ms)
    with Cons a have "(node, upd) \<in> set items" by auto
    from Cons.IH [OF this Cons.prems(2)] obtain e' where "collect_new_messages l items = Inl e'" ..
    with Inr a show ?thesis by simp
  qed
qed

lemma unpack2_pair [simp]: "unpack2 (PTuple [a, b]) = Inr (a, b)"
  by (simp add: unpack2_def)

text \<open>
  C10. A node update of a sub-agent whose message list is empty or absent raises
  \<^verbatim>\<open>IndexError\<close> at \<^verbatim>\<open>update_messages[0]\<close>. The event that holds it yields no
  \<^verbatim>\<open>message\<close> frame, and the stream ends there with the error frame and the sentinel,
  whatever events would follow.
\<close>

theorem sub_agent_without_messages_ends_stream:
  assumes "(node, upd) \<in> set items"
    and "node = ''research_expert'' \<or> node = ''math_expert''"
    and "no_messages upd"
  shows "node_messages l node upd = Inl IndexError \<and>
         (\<exists>fs. \<not> list_ex is_message_frame fs \<and>
               (\<forall>rest. run_stream l ui rid (Yield (PTuple [PStr ''updates'', PDict items]) # rest) =
                        fs @ [ErrorFrame ''Internal server error'', Done]))"
proof -
  have nm: "node_messages l node upd = Inl IndexError"
    using assms(2,3) by (rule no_messages_raises)
  obtain e' where cf: "collect_new_messages l items = Inl e'"
    using collect_new_messages_fails [OF assms(1) nm] ..
  obtain fs1 r1 where up: "updates_part l ui rid (PDict items) = (fs1, r1)"
    by (cases "updates_part l ui rid (PDict items)")
  have "\<exists>e. r1 = Inl e"
    using up by (auto simp: updates_part_def cf split: if_splits prod.splits option.splits)
  then obtain e where r1: "r1 = Inl e" ..
  have k: "\<not> list_ex is_message_frame fs1"
    using updates_part_kind' [OF up] by (auto simp: list_ex_iff)
  have pe: "process_event l ui rid (PTuple [PStr ''updates'', PDict items]) = (fs1, Some e)"
    using up r1 by (simp add: process_event_def)
  have "\<forall>rest. run_stream l ui rid (Yield (PTuple [PStr ''updates'', PDict items]) # rest) =
          fs1 @ [ErrorFrame ''Internal server error'', Done]"
    using pe by simp
  with nm k show ?thesis by blast
qed


theorem sub_agent_without_messages_ends_stream_witness:
  "(''math_expert'', PDict [(''messages'', PList [])]) \<in>
     set [(''math_expert'', PDict [(''messages'', PList [])])] \<and>
   no_messages (PDict [(''messages'', PList [])]) \<and>
   node_messages mock_lib ''math_expert'' (PDict [(''messages'', PList [])]) = Inl IndexError \<and>
   run_stream mock_lib (request ''hi'') ''run-1'' [Yield empty_sub_agent_event, Yield answer_event] =
     [NodeUpdate ''math_expert'' True [(''messages'', PList [])] ''run-1'',
      ErrorFrame ''Internal server error'', Done]"
proof -
  have m: "(''math_expert'', PDict [(''messages'', PList [])]) \<in>
     set [(''math_expert'', PDict [(''messages'', PList [])])]" by simp
  have n: "no_messages (PDict [(''messages'', PList [])])" by simp
  have v: "run_stream mock_lib (request ''hi'') ''run-1'' [Yield empty_sub_agent_event, Yield answer_event] =
     [NodeUpdate ''math_expert'' True [(''messages'', PList [])] ''run-1'',
      ErrorFrame ''Internal server error'', Done]"
    by code_simp
  from sub_agent_without_messages_ends_stream [OF m _ n, of mock_lib]
  have "node_messages mock_lib ''math_expert'' (PDict [(''messages'', PList [])]) = Inl IndexError"
    by simp
  with m n v show ?thesis by simp
qed

section \<open>The assembler\<close>

lemma and_then_case: "and_then m f = (case m of Inl e \<Rightarrow> Inl e | Inr x \<Rightarrow> f x)"
  by (cases m) simp_all

lemma dict_set_nonempty: "dict_set d k v \<noteq> []"
  by (cases d) (auto split: if_splits)

lemma add_part_nonempty: "add_part cur m = Inr c \<Longrightarrow> c \<noteq> []"
  by (auto simp: add_part_def and_then_Inr_iff dict_set_nonempty split: if_splits)

lemma resume_runs_empty: "resume_runs l [] ms = assemble_by_runs l ms"
  by (simp add: resume_runs_def assemble_by_runs_def split: list.splits segment.splits)

lemma resume_runs_fragment:
  assumes "is_tuple m"
  shows "resume_runs l cur (m # ms) = and_then (add_part cur m) (\<lambda>c. resume_runs l c ms)"
proof (cases "add_part cur m")
  case (Inl e)
  have "resume_runs l cur (m # ms) = Inl e"
  proof (cases "segments ms")
    case Nil
    then show ?thesis using assms Inl by (simp add: resume_runs_def)
  next
    case (Cons sg rest)
    then show ?thesis using assms Inl by (cases sg) (simp_all add: resume_runs_def)
  qed
  then show ?thesis using Inl by simp
next
  case (Inr c)
  have c: "c \<noteq> []" using Inr by (rule add_part_nonempty)
  have "resume_runs l cur (m # ms) = resume_runs l c ms"
  proof (cases "segments ms")
    case Nil
    then show ?thesis using assms Inr c by (simp add: resume_runs_def)
  next
    case (Cons sg rest)
    then show ?thesis using assms Inr c by (cases sg) (simp_all add: resume_runs_def)
  qed
  then show ?thesis using Inr by simp
qed

lemma resume_runs_complete:
  "\<not> is_tuple m \<Longrightarrow>
     resume_runs l cur (m # ms) =
       (if cur \<noteq> []
        then and_then (create_ai_message l cur)
               (\<lambda>a. and_then (resume_runs l [] ms) (\<lambda>r. Inr (a # m # r)))
        else and_then (resume_runs l [] ms) (\<lambda>r. Inr (m # r)))"
  by (simp add: resume_runs_empty) (simp add: resume_runs_def assemble_by_runs_def and_then_case split: sum.splits)

lemma asm_loop_resume:
  "and_then (asm_loop l \<lparr>processed_messages = P, current_message = cur\<rparr> ms) (asm_finish l) =
   and_then (resume_runs l cur ms) (\<lambda>r. Inr (P @ r))"
proof (induction ms arbitrary: P cur)
  case Nil
  show ?case
    by (simp add: asm_finish_def resume_runs_def and_then_case split: sum.splits)
next
  case (Cons m ms)
  show ?case
  proof (cases "is_tuple m")
    case True
    show ?thesis
    proof (cases "add_part cur m")
      case (Inl e)
      then show ?thesis using True by (simp add: asm_step_def resume_runs_fragment)
    next
      case (Inr c)
      then show ?thesis using True Cons.IH [of P c]
        by (simp add: asm_step_def resume_runs_fragment)
    qed
  next
    case False
    show ?thesis
    proof (cases "cur = []")
      case True
      then show ?thesis using False Cons.IH [of "P @ [m]" "[]"]
        by (simp add: asm_step_def resume_runs_complete and_then_case split: sum.splits)
    next
      case ne: False
      show ?thesis
      proof (cases "create_ai_message l cur")
        case (Inl e)
        then show ?thesis using False ne
          by (simp add: asm_step_def resume_runs_complete)
      next
        case (Inr am)
        then show ?thesis using False ne Cons.IH [of "P @ [am, m]" "[]"]
          by (simp add: asm_step_def resume_runs_complete and_then_case split: sum.splits)
      qed
    qed
  qed
qed

lemma assemble_by_runs_eq: "assemble l ms = assemble_by_runs l ms"
  using asm_loop_resume [of l "[]" "[]" ms]
  by (simp add: assemble_def resume_runs_empty and_then_case split: sum.splits)

lemma segments_flatten: "concat (map segment_items (segments ms)) = ms"
proof (induction ms)
  case Nil
  show ?case by simp
next
  case (Cons m ms)
  show ?case
  proof (cases "segments ms")
    case Nil
    with Cons show ?thesis by simp
  next
    case (Cons sg rest)
    with Cons.IH show ?thesis by (cases sg) auto
  qed
qed

lemma segments_maximal: "maximal_runs (segments ms)"
proof (induction ms)
  case Nil
  show ?case by simp
next
  case (Cons m ms)
  show ?case
  proof (cases "segments ms")
    case Nil
    then show ?thesis by simp
  next
    case (Cons sg rest)
    with Cons.IH show ?thesis by (cases sg) (auto split: list.splits segment.splits)
  qed
qed

text \<open>
  C4. The loop holds one pending map. Its result is the candidate list cut into its maximal
  runs of fragments and its complete messages, with one message per segment, in order: each
  run flushed into one synthesised message, before the complete message that follows it or
  at the end of the list; the first exception ends the assembly.
\<close>

theorem assemble_one_message_per_run:
  "assemble l ms = in_order (map (synthesize l) (segments ms)) \<and>
   concat (map segment_items (segments ms)) = ms \<and>
   maximal_runs (segments ms)"
  using assemble_by_runs_eq [of l ms] segments_flatten [of ms] segments_maximal [of ms]
  by (simp add: assemble_by_runs_def)

theorem assemble_one_message_per_run_witness:
  "assemble mock_lib fragment_candidates =
     Inr [PMsg AIMessage (PStr ''a'') (Some ''n''), PMsg HumanMessage (PStr ''q'') None,
          PMsg AIMessage (PStr ''b'') None]"
proof -
  have "in_order (map (synthesize mock_lib) (segments fragment_candidates)) =
     Inr [PMsg AIMessage (PStr ''a'') (Some ''n''), PMsg HumanMessage (PStr ''q'') None,
          PMsg AIMessage (PStr ''b'') None]"
    by code_simp
  with assemble_one_message_per_run [of mock_lib fragment_candidates] show ?thesis by simp
qed

section \<open>The invocation facade: terminal events\<close>

lemma invoke_unfold:
  assumes "get_agent agents agent_id = Inr ag"
    and "handle_input l rid fresh ui ag = Inr (inp, config, r)"
    and "ainvoke ag inp config = Inr events"
  shows "invoke l agents rid fresh ui agent_id =
           (case terminal_output l events of
              Inl e \<Rightarrow> Inl (HTTPException 500 ''Unexpected error'')
            | Inr output \<Rightarrow> Inr (output\<lparr>run_id := Some rid\<rparr>))"
proof -
  have "r = rid" using handle_input_rid [OF assms(2)] by simp
  then show ?thesis using assms
    by (simp add: invoke_def and_then_case split: sum.splits)
qed

text \<open>
  C5. When the terminal event of the engine is a \<^verbatim>\<open>values\<close> event, the message returned
  has the content of the last message of that event's list, and the run id of the request.
  The converter is the one the specification describes.
\<close>

theorem invoke_returns_last_message:
  assumes "get_agent agents agent_id = Inr ag"
    and "handle_input l rid fresh ui ag = Inr (inp, config, r)"
    and "ainvoke ag inp config = Inr (PList evs)"
    and "evs \<noteq> []"
    and "last evs = PTuple [PStr ''values'', PDict resp]"
    and "map_of resp ''messages'' = Some (PList msgs)"
    and "msgs \<noteq> []"
    and "last msgs = PMsg c v n"
    and "langchain_to_chat_message l = langchain_to_chat_message_spec other"
  shows "invoke l agents rid fresh ui agent_id =
           Inr \<lparr>msg_type = role_of c, content = v, run_id = Some rid\<rparr>"
proof -
  have "terminal_output l (PList evs) = Inr \<lparr>msg_type = role_of c, content = v, run_id = None\<rparr>"
    using assms(4-9) by (simp add: terminal_output_def)
  then show ?thesis using invoke_unfold [OF assms(1-3)] by simp
qed

theorem invoke_returns_last_message_witness:
  "invoke mock_lib (registry (mock_agent (PList [values_event]) [])) ''run-1'' ''thread-1''
     (request ''What is the weather in Tokyo?'') ''research-assistant'' =
   Inr \<lparr>msg_type = ''ai'', content = PStr ''The weather in Tokyo is sunny.'',
         run_id = Some ''run-1''\<rparr>"
proof -
  let ?ag = "mock_agent (PList [values_event]) []"
  let ?cfg = "\<lparr>configurable = [(''thread_id'', PStr ''thread-1'')], config_run_id = ''run-1'',
             callbacks = False\<rparr>"
  let ?inp = "Fresh [PMsg HumanMessage (PStr ''What is the weather in Tokyo?'') None]"
  have g: "get_agent (registry ?ag) ''research-assistant'' = Inr ?ag"
    by (simp add: get_agent_def registry_def)
  have h: "handle_input mock_lib ''run-1'' ''thread-1'' (request ''What is the weather in Tokyo?'') ?ag =
      Inr (?inp, ?cfg, ''run-1'')"
    by code_simp
  have a: "ainvoke ?ag ?inp ?cfg = Inr (PList [values_event])"
    by (simp add: mock_agent_def)
  have e: "last [values_event] =
      PTuple [PStr ''values'',
        PDict [(''messages'', PList [PMsg AIMessage (PStr ''The weather in Tokyo is sunny.'') None])]]"
    by (simp add: values_event_def)
  have c: "langchain_to_chat_message mock_lib = langchain_to_chat_message_spec (\<lambda>v. Inl ValueError)"
    by (simp add: mock_lib_def)
  from invoke_returns_last_message [OF g h a _ e _ _ _ c,
      of "[PMsg AIMessage (PStr ''The weather in Tokyo is sunny.'') None]" AIMessage
         "PStr ''The weather in Tokyo is sunny.''" None]
  show ?thesis by simp
qed



section \<open>Supervisor and sub-agent updates\<close>

lemma node_update_frame_dict: "\<exists>f. node_update_frame l rid node (PDict kvs) = Inr f"
  by (simp add: node_update_frame_def has_updates_def and_then_case split: sum.splits option.splits)

lemma single_node_event:
  assumes "node_messages l node (PDict kvs) = Inr [m]" and "\<not> is_tuple m"
  shows "\<exists>fs. \<not> list_ex is_message_frame fs \<and>
           process_event l ui rid (PTuple [PStr ''updates'', PDict [(node, PDict kvs)]]) =
             (fs @ message_frames l ui rid [m], None)"
proof -
  obtain f where f: "node_update_frame l rid node (PDict kvs) = Inr f"
    using node_update_frame_dict by blast
  have k: "\<not> is_message_frame f" using node_update_frame_kind [OF f] by simp
  have asm: "assemble l [m] = Inr [m]"
    using assms(2) by (simp add: assemble_def asm_step_def asm_finish_def)
  define fs where "fs = (if stream_node_updates ui \<noteq> Some False then [f] else [])"
  have up: "updates_part l ui rid (PDict [(node, PDict kvs)]) = (fs, Inr [m])"
    using f assms(1) by (simp add: updates_part_def fs_def)
  have "process_event l ui rid (PTuple [PStr ''updates'', PDict [(node, PDict kvs)]]) =
          (fs @ message_frames l ui rid [m], None)"
    using up asm by (simp add: process_event_def)
  moreover have "\<not> list_ex is_message_frame fs" using k by (simp add: fs_def)
  ultimately show ?thesis by blast
qed

lemma last_filter_AIMessage: "filter is_AIMessage xs \<noteq> [] \<Longrightarrow> is_AIMessage (last (filter is_AIMessage xs))"
  using last_in_set [of "filter is_AIMessage xs"] by auto

lemma is_AIMessage_not_tuple: "is_AIMessage m \<Longrightarrow> \<not> is_tuple m"
  by (cases m) simp_all

text \<open>
  C7. From a node update of \<^verbatim>\<open>supervisor\<close> at most one assistant message becomes a
  candidate. When the message list holds assistant messages, the last of them is the only
  candidate, and the only message the event hands to the converter.
\<close>

theorem supervisor_keeps_last_ai_message:
  assumes "map_of kvs ''messages'' = Some (PList xs)"
  shows "\<exists>cands. node_messages l ''supervisor'' (PDict kvs) = Inr cands \<and>
           length (filter is_AIMessage cands) \<le> 1 \<and>
           (filter is_AIMessage xs \<noteq> [] \<longrightarrow>
              cands = [last (filter is_AIMessage xs)] \<and>
              (\<exists>fs. \<not> list_ex is_message_frame fs \<and>
                 process_event l ui rid
                   (PTuple [PStr ''updates'', PDict [(''supervisor'', PDict kvs)]]) =
                 (fs @ message_frames l ui rid [last (filter is_AIMessage xs)], None)))"
proof (cases "filter is_AIMessage xs = []")
  case True
  have "kvs \<noteq> []" using assms by auto
  then have "node_messages l ''supervisor'' (PDict kvs) = Inr xs"
    using assms True by (simp add: node_messages_def supervisor_case_def sub_agent_case_def)
  then show ?thesis using True by simp
next
  case False
  let ?m = "last (filter is_AIMessage xs)"
  have ai: "is_AIMessage ?m" using False by (rule last_filter_AIMessage)
  have "kvs \<noteq> []" using assms by auto
  then have nm: "node_messages l ''supervisor'' (PDict kvs) = Inr [?m]"
    using assms False by (simp add: node_messages_def supervisor_case_def sub_agent_case_def)
  from single_node_event [OF nm is_AIMessage_not_tuple [OF ai], of ui rid]
  show ?thesis using nm ai by simp
qed

theorem supervisor_keeps_last_ai_message_witness:
  "map_of [(''messages'', PList supervisor_messages)] ''messages'' = Some (PList supervisor_messages) \<and>
   filter is_AIMessage supervisor_messages =
     [PMsg AIMessage (PStr ''first'') None, PMsg AIMessage (PStr ''second'') None] \<and>
   node_messages mock_lib ''supervisor'' (PDict [(''messages'', PList supervisor_messages)]) =
     Inr [PMsg AIMessage (PStr ''second'') None]"
proof -
  have m: "map_of [(''messages'', PList supervisor_messages)] ''messages'' =
      Some (PList supervisor_messages)" by simp
  have f: "filter is_AIMessage supervisor_messages =
     [PMsg AIMessage (PStr ''first'') None, PMsg AIMessage (PStr ''second'') None]"
    by (simp add: supervisor_messages_def)
  from supervisor_keeps_last_ai_message [OF m, where l = mock_lib and ui = "request ''hi''"
      and rid = "''run-1''"]
  obtain cands where
    c: "node_messages mock_lib ''supervisor'' (PDict [(''messages'', PList supervisor_messages)]) =
          Inr cands"
    and d: "filter is_AIMessage supervisor_messages \<noteq> [] \<longrightarrow>
          cands = [last (filter is_AIMessage supervisor_messages)] \<and>
          (\<exists>fs. \<not> list_ex is_message_frame fs \<and>
                 process_event mock_lib (request ''hi'') ''run-1''
                   (PTuple [PStr ''updates'',
                      PDict [(''supervisor'', PDict [(''messages'', PList supervisor_messages)])]]) =
                 (fs @ message_frames mock_lib (request ''hi'') ''run-1''
                         [last (filter is_AIMessage supervisor_messages)], None))"
    by blast
  from d f have "cands = [PMsg AIMessage (PStr ''second'') None]" by simp
  with c m f show ?thesis by simp
qed








section \<open>The reserved key that is always rejected\<close>

text \<open>\<^verbatim>\<open>thread_id\<close> is always in the configurable dictionary, so an \<^verbatim>\<open>agent_config\<close> that
  holds it is refused before the engine is consulted, whatever the engine is.\<close>

lemma dict_set_keys: "fst ` set (dict_set d k v) = insert k (fst ` set d)"
  by (induction d) (force split: if_splits)+

lemma set_if_given_keys: "fst ` set c \<subseteq> fst ` set (set_if_given c k v)"
  by (cases v) (auto simp: dict_set_keys)

lemma thread_id_is_reserved: "''thread_id'' \<in> fst ` set (build_configurable fresh ui)"
proof -
  have "''thread_id'' \<in> fst ` set [(''thread_id'', PStr (str_or (thread_id ui) fresh))]" by simp
  then show ?thesis
    unfolding build_configurable_def Let_def using set_if_given_keys by blast
qed

lemma thread_id_key_rejected:
  assumes "''thread_id'' \<in> fst ` set (agent_config ui)"
  shows "handle_input l rid fresh ui ag = Inl (HTTPException 422 ''agent_config contains reserved keys'')"
proof -
  have "agent_config ui \<noteq> []" using assms by auto
  moreover have "''thread_id'' \<in> set (overlap (build_configurable fresh ui) (agent_config ui))"
    using assms thread_id_is_reserved [of fresh ui] by (auto simp: overlap_def)
  then have "overlap (build_configurable fresh ui) (agent_config ui) \<noteq> []" by auto
  ultimately show ?thesis by (simp add: handle_input_def)
qed

end
